theory Spec2Isabelle
  imports Main "HOL-Library.Word"
begin

unbundle bit_operations_syntax

section \<open>Byte strings and the content hasher\<close>

text \<open>
  A Python \<open>bytes\<close> object is a list of 8-bit words. \<open>calculate_sha256\<close> of both source
  files is \<open>hashlib.sha256(file_content).hexdigest()\<close>: SHA-256 (FIPS 180-4) of the whole
  buffer, printed as 64 lowercase hexadecimal digits. The 32-bit words of the computation
  are integers with the wrap-around written out.
\<close>

type_synonym byte = "8 word"
type_synonym bytes = "byte list"

definition add32 :: "int \<Rightarrow> int \<Rightarrow> int" where
  "add32 a b = (a + b) mod 4294967296"

definition rotr :: "nat \<Rightarrow> int \<Rightarrow> int" where
  "rotr n x = (x div 2 ^ n + x * 2 ^ (32 - n)) mod 4294967296"

definition shr :: "nat \<Rightarrow> int \<Rightarrow> int" where
  "shr n x = x div 2 ^ n"

definition Ch :: "int \<Rightarrow> int \<Rightarrow> int \<Rightarrow> int" where
  "Ch x y z = (x AND y) XOR ((x XOR 4294967295) AND z)"

definition Maj :: "int \<Rightarrow> int \<Rightarrow> int \<Rightarrow> int" where
  "Maj x y z = (x AND y) XOR (x AND z) XOR (y AND z)"

definition big_sigma0 :: "int \<Rightarrow> int" where
  "big_sigma0 x = rotr 2 x XOR rotr 13 x XOR rotr 22 x"

definition big_sigma1 :: "int \<Rightarrow> int" where
  "big_sigma1 x = rotr 6 x XOR rotr 11 x XOR rotr 25 x"

definition small_sigma0 :: "int \<Rightarrow> int" where
  "small_sigma0 x = rotr 7 x XOR rotr 18 x XOR shr 3 x"

definition small_sigma1 :: "int \<Rightarrow> int" where
  "small_sigma1 x = rotr 17 x XOR rotr 19 x XOR shr 10 x"

definition round_constants :: "int list" where
  "round_constants =
    [0x428A2F98, 0x71374491, 0xB5C0FBCF, 0xE9B5DBA5, 0x3956C25B, 0x59F111F1, 0x923F82A4, 0xAB1C5ED5,
     0xD807AA98, 0x12835B01, 0x243185BE, 0x550C7DC3, 0x72BE5D74, 0x80DEB1FE, 0x9BDC06A7, 0xC19BF174,
     0xE49B69C1, 0xEFBE4786, 0x0FC19DC6, 0x240CA1CC, 0x2DE92C6F, 0x4A7484AA, 0x5CB0A9DC, 0x76F988DA,
     0x983E5152, 0xA831C66D, 0xB00327C8, 0xBF597FC7, 0xC6E00BF3, 0xD5A79147, 0x06CA6351, 0x14292967,
     0x27B70A85, 0x2E1B2138, 0x4D2C6DFC, 0x53380D13, 0x650A7354, 0x766A0ABB, 0x81C2C92E, 0x92722C85,
     0xA2BFE8A1, 0xA81A664B, 0xC24B8B70, 0xC76C51A3, 0xD192E819, 0xD6990624, 0xF40E3585, 0x106AA070,
     0x19A4C116, 0x1E376C08, 0x2748774C, 0x34B0BCB5, 0x391C0CB3, 0x4ED8AA4A, 0x5B9CCA4F, 0x682E6FF3,
     0x748F82EE, 0x78A5636F, 0x84C87814, 0x8CC70208, 0x90BEFFFA, 0xA4506CEB, 0xBEF9A3F7, 0xC67178F2]"

type_synonym hash_state = "int \<times> int \<times> int \<times> int \<times> int \<times> int \<times> int \<times> int"

definition initial_hash :: hash_state where
  "initial_hash =
    (0x6A09E667, 0xBB67AE85, 0x3C6EF372, 0xA54FF53A, 0x510E527F, 0x9B05688C, 0x1F83D9AB, 0x5BE0CD19)"

text \<open>The length in bits, big-endian on eight bytes.\<close>

definition be64 :: "int \<Rightarrow> bytes" where
  "be64 n = map (\<lambda>i. word_of_int (n div 256 ^ (7 - i))) [0..<8]"

definition sha_pad :: "bytes \<Rightarrow> bytes" where
  "sha_pad m =
     m @ [0x80] @ replicate ((119 - length m mod 64) mod 64) 0
       @ be64 ((8 * int (length m)) mod 2 ^ 64)"

fun be_words :: "bytes \<Rightarrow> int list" where
  "be_words (a # b # c # d # rest) =
     (16777216 * uint a + 65536 * uint b + 256 * uint c + uint d) # be_words rest"
| "be_words _ = []"

fun blocks :: "nat \<Rightarrow> 'a list \<Rightarrow> 'a list list" where
  "blocks n [] = []"
| "blocks n xs = (if n = 0 then [xs] else take n xs # blocks n (drop n xs))"

text \<open>The message schedule is built most recent word first, then reversed.\<close>

definition extend_schedule :: "int list \<Rightarrow> int list" where
  "extend_schedule rw =
     add32 (add32 (add32 (small_sigma1 (rw ! 1)) (rw ! 6)) (small_sigma0 (rw ! 14))) (rw ! 15) # rw"

definition schedule :: "int list \<Rightarrow> int list" where
  "schedule w = rev (foldl (\<lambda>rw t. extend_schedule rw) (rev w) [16..<64])"

fun sha_round :: "hash_state \<Rightarrow> int \<times> int \<Rightarrow> hash_state" where
  "sha_round (a, b, c, d, e, f, g, h) (k, w) =
     (let t1 = add32 (add32 (add32 (add32 h (big_sigma1 e)) (Ch e f g)) k) w;
          t2 = add32 (big_sigma0 a) (Maj a b c)
      in (add32 t1 t2, a, b, c, add32 d t1, e, f, g))"

fun add_state :: "hash_state \<Rightarrow> hash_state \<Rightarrow> hash_state" where
  "add_state (a, b, c, d, e, f, g, h) (a', b', c', d', e', f', g', h') =
     (add32 a a', add32 b b', add32 c c', add32 d d',
      add32 e e', add32 f f', add32 g g', add32 h h')"

definition compress :: "hash_state \<Rightarrow> bytes \<Rightarrow> hash_state" where
  "compress hs block =
     add_state hs (foldl sha_round hs (zip round_constants (schedule (be_words block))))"

definition sha256 :: "bytes \<Rightarrow> hash_state" where
  "sha256 m = foldl compress initial_hash (blocks 64 (sha_pad m))"

definition hex_char :: "nat \<Rightarrow> char" where
  "hex_char n = ''0123456789abcdef'' ! (n mod 16)"

text \<open>The digits that \<open>hex_char\<close> produces.\<close>

definition lower_hex :: "char set" where
  "lower_hex = set ''0123456789abcdef''"

text \<open>Python's \<open>'%0nx' % i\<close> for \<open>0 \<le> i < 16 ^ n\<close>: \<open>n\<close> lowercase digits.\<close>

definition hex_fixed :: "nat \<Rightarrow> int \<Rightarrow> string" where
  "hex_fixed n i = map (\<lambda>k. hex_char (nat ((i div 16 ^ (n - 1 - k)) mod 16))) [0..<n]"

fun hexdigest :: "hash_state \<Rightarrow> string" where
  "hexdigest (a, b, c, d, e, f, g, h) =
     hex_fixed 8 a @ hex_fixed 8 b @ hex_fixed 8 c @ hex_fixed 8 d
       @ hex_fixed 8 e @ hex_fixed 8 f @ hex_fixed 8 g @ hex_fixed 8 h"

definition calculate_sha256 :: "bytes \<Rightarrow> string" where
  "calculate_sha256 file_content = hexdigest (sha256 file_content)"

text \<open>The bytes of an ASCII literal, as \<open>b'...'\<close> in Python.\<close>

definition ascii :: "string \<Rightarrow> bytes" where
  "ascii s = map (\<lambda>c. word_of_nat (of_char c)) s"


section \<open>Python string operations used by the service\<close>

text \<open>\<open>s.replace(old, '')\<close>: every non-overlapping occurrence of \<open>old\<close>, left to right.\<close>

function py_remove :: "string \<Rightarrow> string \<Rightarrow> string" where
  "py_remove old s =
     (if old = [] \<or> s = [] then s
      else if take (length old) s = old then py_remove old (drop (length old) s)
      else hd s # py_remove old (tl s))"
  by pat_completeness auto
termination
  by (relation "measure (\<lambda>(old, s). length s)") auto

declare py_remove.simps [simp del]

text \<open>\<open>s.strip(chars)\<close>.\<close>

definition py_strip :: "string \<Rightarrow> string \<Rightarrow> string" where
  "py_strip chars s =
     rev (dropWhile (\<lambda>c. c \<in> set chars) (rev (dropWhile (\<lambda>c. c \<in> set chars) s)))"

text \<open>\<open>s.lower()\<close> on ASCII text.\<close>

definition py_lower :: "string \<Rightarrow> string" where
  "py_lower s =
     map (\<lambda>c. if 65 \<le> (of_char c :: nat) \<and> (of_char c :: nat) \<le> 90
               then char_of (of_char c + (32 :: nat)) else c) s"

definition is_space :: "char \<Rightarrow> bool" where
  "is_space c = ((of_char c :: nat) \<in> {9, 10, 11, 12, 13, 28, 29, 30, 31, 32})"

text \<open>\<open>s.split()\<close>: the maximal runs of non-whitespace characters.\<close>

function py_split :: "string \<Rightarrow> string list" where
  "py_split s =
     (let t = dropWhile is_space s
      in if t = [] then []
         else takeWhile (\<lambda>c. \<not> is_space c) t # py_split (dropWhile (\<lambda>c. \<not> is_space c) t))"
  by pat_completeness auto
termination
proof (relation "measure length", goal_cases)
  case 1
  show ?case by simp
next
  case (2 s t)
  then obtain c cs where t: "dropWhile is_space s = c # cs"
    by (cases "dropWhile is_space s") auto
  then have "\<not> is_space c"
    using hd_dropWhile [of is_space s] by auto
  then have "length (dropWhile (\<lambda>c. \<not> is_space c) (c # cs)) \<le> length cs"
    by (simp add: length_dropWhile_le)
  moreover have "length (c # cs) \<le> length s"
    using length_dropWhile_le [of is_space s] t by simp
  ultimately show ?case using 2 t by simp
qed

declare py_split.simps [simp del]

definition py_join :: "string \<Rightarrow> string list \<Rightarrow> string" where
  "py_join sep ws = (case ws of [] \<Rightarrow> [] | w # rest \<Rightarrow> w @ concat (map (\<lambda>x. sep @ x) rest))"

text \<open>
  A character of a string is a code point below 256. \<open>nfkd_ascii\<close> is what
  \<open>unicodedata.normalize('NFKD', c).encode('ascii', 'ignore')\<close> leaves of one character: an
  ASCII character is kept, and of the others the table gives the ASCII characters of the
  compatibility decomposition (code points 128 to 255, eight per line), the combining
  marks and everything else outside ASCII being dropped.
\<close>

definition nfkd_table :: "string list" where
  "nfkd_table =
    ['''', '''', '''', '''', '''', '''', '''', '''',
     '''', '''', '''', '''', '''', '''', '''', '''',
     '''', '''', '''', '''', '''', '''', '''', '''',
     '''', '''', '''', '''', '''', '''', '''', '''',
     '' '', '''', '''', '''', '''', '''', '''', '''',
     '' '', '''', ''a'', '''', '''', '''', '''', '' '',
     '''', '''', ''2'', ''3'', '' '', '''', '''', '''',
     '' '', ''1'', ''o'', '''', ''14'', ''12'', ''34'', '''',
     ''A'', ''A'', ''A'', ''A'', ''A'', ''A'', '''', ''C'',
     ''E'', ''E'', ''E'', ''E'', ''I'', ''I'', ''I'', ''I'',
     '''', ''N'', ''O'', ''O'', ''O'', ''O'', ''O'', '''',
     '''', ''U'', ''U'', ''U'', ''U'', ''Y'', '''', '''',
     ''a'', ''a'', ''a'', ''a'', ''a'', ''a'', '''', ''c'',
     ''e'', ''e'', ''e'', ''e'', ''i'', ''i'', ''i'', ''i'',
     '''', ''n'', ''o'', ''o'', ''o'', ''o'', ''o'', '''',
     '''', ''u'', ''u'', ''u'', ''u'', ''y'', '''', ''y'']"

definition nfkd_ascii :: "char \<Rightarrow> string" where
  "nfkd_ascii c = (if (of_char c :: nat) < 128 then [c] else nfkd_table ! ((of_char c :: nat) - 128))"

text \<open>
  \<open>werkzeug.utils.secure_filename\<close> on a POSIX host: the name is normalised and reduced
  to ASCII, the path separator becomes a blank, the blank-separated parts are joined by
  \<open>_\<close>, every character outside \<open>[A-Za-z0-9_.-]\<close> is removed, and leading and trailing
  \<open>.\<close> and \<open>_\<close> are stripped.
\<close>

definition filename_char :: "char \<Rightarrow> bool" where
  "filename_char c =
     (c \<in> set ''ABCDEFGHIJKLMNOPQRSTUVWXYZabcdefghijklmnopqrstuvwxyz0123456789_.-'')"

definition secure_filename :: "string \<Rightarrow> string" where
  "secure_filename name =
     (let ascii_only = concat (map nfkd_ascii name);
          spaced = map (\<lambda>c. if c = CHR ''/'' then CHR '' '' else c) ascii_only
      in py_strip ''._'' (filter filename_char (py_join ''_'' (py_split spaced))))"


section \<open>Vault identifiers\<close>

text \<open>
  \<open>uuid.uuid4()\<close> takes 16 bytes of \<open>os.urandom\<close> as a 128-bit integer and overwrites
  the variant and version bits; \<open>str\<close> prints the canonical 8-4-4-4-12 form.
\<close>

definition uuid4 :: "128 word \<Rightarrow> int" where
  "uuid4 random =
     ((((uint random AND NOT (push_bit 48 0xC000)) OR push_bit 48 0x8000)
        AND NOT (push_bit 64 0xF000)) OR push_bit 76 4)"

definition uuid_str :: "int \<Rightarrow> string" where
  "uuid_str i =
     (let h = hex_fixed 32 i
      in take 8 h @ ''-'' @ take 4 (drop 8 h) @ ''-'' @ take 4 (drop 12 h) @ ''-''
           @ take 4 (drop 16 h) @ ''-'' @ drop 20 h)"

definition is_hex :: "char \<Rightarrow> bool" where
  "is_hex c = (c \<in> set ''0123456789abcdefABCDEF'')"

text \<open>
  Whether \<open>int(s, 16)\<close> returns rather than raising \<open>ValueError\<close>: blanks around the
  literal are skipped, then come an optional sign, an optional prefix \<open>0x\<close> or \<open>0X\<close> (after
  which one underscore is allowed), and hexadecimal digits that single underscores may
  separate.
\<close>

definition int_space :: "char \<Rightarrow> bool" where
  "int_space c = ((of_char c :: nat) \<in> {9, 10, 11, 12, 13, 32, 133, 160})"

fun adjacent_underscores :: "string \<Rightarrow> bool" where
  "adjacent_underscores (a # b # rest) =
     ((a = CHR ''_'' \<and> b = CHR ''_'') \<or> adjacent_underscores (b # rest))"
| "adjacent_underscores _ = False"

definition int16_parses :: "string \<Rightarrow> bool" where
  "int16_parses s =
     (let t = dropWhile int_space s;
          unsigned = (if take 1 t = ''+'' \<or> take 1 t = ''-'' then drop 1 t else t);
          digits = (if take 2 unsigned = ''0x'' \<or> take 2 unsigned = ''0X''
                    then (if take 1 (drop 2 unsigned) = ''_'' then drop 3 unsigned
                          else drop 2 unsigned)
                    else unsigned);
          body = takeWhile (\<lambda>c. is_hex c \<or> c = CHR ''_'') digits;
          rest = dropWhile (\<lambda>c. is_hex c \<or> c = CHR ''_'') digits
      in body \<noteq> [] \<and> hd body \<noteq> CHR ''_'' \<and> last body \<noteq> CHR ''_''
         \<and> \<not> adjacent_underscores body \<and> list_all int_space rest)"

text \<open>
  Whether \<open>uuid.UUID(vault_id)\<close> returns rather than raising \<open>ValueError\<close>: the prefixes
  \<open>urn:\<close> and \<open>uuid:\<close>, surrounding braces and hyphens are removed, 32 characters must
  remain, and \<open>int\<close> must read them in base 16 (the value is then below \<open>2 ^ 128\<close>, and
  not negative since no hyphen is left).
\<close>

definition UUID_parses :: "string \<Rightarrow> bool" where
  "UUID_parses s =
     (let h = py_remove ''-'' (py_strip ''{}'' (py_remove ''uuid:'' (py_remove ''urn:'' s)))
      in length h = 32 \<and> int16_parses h)"


section \<open>The world: bucket, log files, clock and randomness\<close>

text \<open>
  An audit record is one line of \<open>vault_log.jsonl\<close>, the JSON object that
  \<open>log_vault_operation\<close> writes; \<open>json.loads\<close> of a line gives back the object that
  \<open>json.dumps\<close> printed, so a file is the list of its records and the fields are the
  JSON keys. \<open>None\<close> for a file means that it does not exist. A time stamp is the instant
  read from \<open>datetime.utcnow()\<close> in microseconds (its \<open>isoformat()\<close> text is not
  spelled out).
\<close>

type_synonym datetime = int

record vault_entry =
  timestamp :: datetime
  operation :: string
  filename :: string
  sha256_hash :: string
  vault_id :: string
  status :: string
  error :: "string option"

text \<open>
  The lines of \<open>bastion_integrity.jsonl\<close>; the constructor is the \<open>check_type\<close> key.
  \<open>check_duration_seconds\<close> is kept exactly, in microseconds.
\<close>

datatype integrity_line =
    IntegrityVerification
      (iv_timestamp: datetime) (iv_vault_id: string) (iv_filename: string) (iv_status: string)
      (original_hash: "string option") (current_hash: "string option")
      (integrity_verified: "bool option") (iv_error: "string option")
  | IntegritySummary
      (is_timestamp: datetime) (total_files: nat) (verified_files: nat) (failed_files: nat)
      (check_duration: int) (is_status: string)
  | FatalError (fe_timestamp: datetime) (fe_error: string) (fe_status: string)

text \<open>
  What a call of the storage client raises: botocore's \<open>ClientError\<close> (the store
  answered with an error, such as a missing key or a refused request), or any other
  exception (with its message), which no \<open>except ClientError\<close> catches.
\<close>

datatype exn = ClientError | OtherException string

text \<open>
  The state the two programs run in: the objects of the bucket by key, the two log
  files, and the three sources the programs read from their environment. The \<open>n\<close>-th call
  of the storage client fails as \<open>faults n\<close> says, the \<open>n\<close>-th reading of the clock is
  \<open>clock n\<close>, the \<open>n\<close>-th draw of 16 random bytes is \<open>entropy n\<close>. Appending to a log file
  is taken to succeed (the source only reports a failed write on its logger).
\<close>

record world =
  objects :: "string \<Rightarrow> bytes option"
  faults :: "nat \<Rightarrow> exn option"
  calls :: nat
  vault_log :: "vault_entry list option"
  integrity_log :: "integrity_line list option"
  clock :: "nat \<Rightarrow> datetime"
  ticks :: nat
  entropy :: "nat \<Rightarrow> 128 word"
  draws :: nat

definition utcnow :: "world \<Rightarrow> datetime \<times> world" where
  "utcnow st = (clock st (ticks st), st\<lparr>ticks := Suc (ticks st)\<rparr>)"

definition urandom16 :: "world \<Rightarrow> 128 word \<times> world" where
  "urandom16 st = (entropy st (draws st), st\<lparr>draws := Suc (draws st)\<rparr>)"

text \<open>\<open>open(path, 'a')\<close> and one written line: the file is created when missing.\<close>

definition append_line :: "'a list option \<Rightarrow> 'a \<Rightarrow> 'a list option" where
  "append_line file line = Some ((case file of None \<Rightarrow> [] | Some ls \<Rightarrow> ls) @ [line])"

definition file_lines :: "'a list option \<Rightarrow> 'a list" where
  "file_lines file = (case file of None \<Rightarrow> [] | Some ls \<Rightarrow> ls)"

text \<open>The three calls of the storage client. \<open>Inl\<close> is the exception raised.\<close>

definition object_key :: "string \<Rightarrow> string \<Rightarrow> string" where
  "object_key vid fname = ''consciousness/'' @ vid @ ''/'' @ fname"

definition put_object :: "world \<Rightarrow> string \<Rightarrow> bytes \<Rightarrow> (exn + unit) \<times> world" where
  "put_object st key body =
     (case faults st (calls st) of
        Some e \<Rightarrow> (Inl e, st\<lparr>calls := Suc (calls st)\<rparr>)
      | None \<Rightarrow> (Inr (), st\<lparr>objects := (objects st)(key \<mapsto> body), calls := Suc (calls st)\<rparr>))"

definition get_object :: "world \<Rightarrow> string \<Rightarrow> (exn + bytes) \<times> world" where
  "get_object st key =
     (case faults st (calls st) of
        Some e \<Rightarrow> (Inl e, st\<lparr>calls := Suc (calls st)\<rparr>)
      | None \<Rightarrow>
          (case objects st key of
             None \<Rightarrow> (Inl ClientError, st\<lparr>calls := Suc (calls st)\<rparr>)
           | Some body \<Rightarrow> (Inr body, st\<lparr>calls := Suc (calls st)\<rparr>)))"

definition head_bucket :: "world \<Rightarrow> (exn + unit) \<times> world" where
  "head_bucket st =
     (case faults st (calls st) of
        Some e \<Rightarrow> (Inl e, st\<lparr>calls := Suc (calls st)\<rparr>)
      | None \<Rightarrow> (Inr (), st\<lparr>calls := Suc (calls st)\<rparr>))"


section \<open>app.py\<close>

definition log_vault_operation ::
  "world \<Rightarrow> string \<Rightarrow> string \<Rightarrow> string \<Rightarrow> string \<Rightarrow> string \<Rightarrow> string option \<Rightarrow> world" where
  "log_vault_operation st oper fname file_hash vid stat err =
     (let (now, st1) = utcnow st;
          log_entry = \<lparr>timestamp = now, operation = oper, filename = fname,
                       sha256_hash = file_hash, vault_id = vid, status = stat, error = err\<rparr>
      in st1\<lparr>vault_log := append_line (vault_log st1) log_entry\<rparr>)"

text \<open>\<open>Inr True\<close> and \<open>Inr False\<close> are the returned values; \<open>Inl\<close> is an exception that
  the \<open>except ClientError\<close> clause lets through.\<close>

definition upload_to_spaces :: "world \<Rightarrow> bytes \<Rightarrow> string \<Rightarrow> string \<Rightarrow> (exn + bool) \<times> world" where
  "upload_to_spaces st file_content fname vid =
     (case put_object st (object_key vid fname) file_content of
        (Inr u, st1) \<Rightarrow> (Inr True, st1)
      | (Inl ClientError, st1) \<Rightarrow> (Inr False, st1)
      | (Inl (OtherException m), st1) \<Rightarrow> (Inl (OtherException m), st1))"

definition download_from_spaces :: "world \<Rightarrow> string \<Rightarrow> string \<Rightarrow> (exn + bytes option) \<times> world" where
  "download_from_spaces st vid fname =
     (case get_object st (object_key vid fname) of
        (Inr body, st1) \<Rightarrow> (Inr (Some body), st1)
      | (Inl ClientError, st1) \<Rightarrow> (Inr None, st1)
      | (Inl (OtherException m), st1) \<Rightarrow> (Inl (OtherException m), st1))"

text \<open>
  The uploaded file of a request (\<open>request.files['file']\<close>), the request that carries it,
  and the query string. The body of a multipart request is the bytes of the file together
  with the framing around it (boundaries, part headers, other fields); \<open>file_part\<close> is
  \<open>None\<close> when the form has no part named \<open>file\<close>.
\<close>

record upload =
  upload_filename :: string
  upload_content :: bytes

record request =
  framing :: nat
  file_part :: "upload option"

definition content_length :: "request \<Rightarrow> nat" where
  "content_length req =
     framing req + (case file_part req of None \<Rightarrow> 0 | Some file \<Rightarrow> length (upload_content file))"

text \<open>\<open>app.config['MAX_CONTENT_LENGTH']\<close>.\<close>

definition MAX_CONTENT_LENGTH :: nat where
  "MAX_CONTENT_LENGTH = 100 * 1024 * 1024"

record query =
  arg_filename :: "string option"
  arg_metadata_only :: "string option"

text \<open>The bodies of the responses; a response is a body and an HTTP status code.\<close>

datatype body =
    ErrorBody string
  | IngestBody string string string nat datetime
  | MetadataBody string string string datetime string
  | VerifyBody string string string string bool nat datetime
  | Attachment bytes string

type_synonym response = "body \<times> nat"

text \<open>
  Reading \<open>request.files\<close> of a request whose body is longer than \<open>MAX_CONTENT_LENGTH\<close>
  raises \<open>RequestEntityTooLarge\<close>, which the handler's \<open>except Exception\<close> turns into its
  generic answer.
\<close>

definition ingest_consciousness :: "world \<Rightarrow> request \<Rightarrow> response \<times> world" where
  "ingest_consciousness st req =
     (if content_length req > MAX_CONTENT_LENGTH
      then ((ErrorBody ''Internal server error during ingestion'', 500), st)
      else
      case file_part req of
        None \<Rightarrow> ((ErrorBody ''No file provided'', 400), st)
      | Some file \<Rightarrow>
          if upload_filename file = [] then ((ErrorBody ''No file selected'', 400), st)
          else
            let original_filename = secure_filename (upload_filename file) in
            if original_filename = [] then ((ErrorBody ''Invalid filename'', 400), st)
            else
              let file_content = upload_content file;
                  file_size = length file_content;
                  file_hash = calculate_sha256 file_content;
                  (random, st1) = urandom16 st;
                  vid = uuid_str (uuid4 random)
              in case upload_to_spaces st1 file_content original_filename vid of
                   (Inl e, st2) \<Rightarrow>
                     ((ErrorBody ''Internal server error during ingestion'', 500), st2)
                 | (Inr False, st2) \<Rightarrow>
                     ((ErrorBody ''Failed to store file in vault'', 500),
                      log_vault_operation st2 ''ingest'' original_filename file_hash vid
                        ''failed'' (Some ''Upload to Spaces failed''))
                 | (Inr True, st2) \<Rightarrow>
                     let st3 = log_vault_operation st2 ''ingest'' original_filename file_hash vid
                                 ''success'' None;
                         (now, st4) = utcnow st3
                     in ((IngestBody vid original_filename file_hash file_size now, 200), st4))"

text \<open>The loop over the lines of the vault log in the metadata branch.\<close>

fun scan_metadata :: "string \<Rightarrow> vault_entry list \<Rightarrow> response" where
  "scan_metadata vid [] = (ErrorBody ''Vault ID not found'', 404)"
| "scan_metadata vid (entry # rest) =
     (if vault_id entry = vid \<and> operation entry = ''ingest''
      then (MetadataBody vid (filename entry) (sha256_hash entry) (timestamp entry) (status entry), 200)
      else scan_metadata vid rest)"

text \<open>Python's \<open>not x\<close> for an optional string: \<open>None\<close> and \<open>''\<close> are false.\<close>

definition truthy :: "string option \<Rightarrow> bool" where
  "truthy x = (case x of None \<Rightarrow> False | Some s \<Rightarrow> s \<noteq> [])"

text \<open>
  \<open>send_file\<close> puts the download name into the \<open>Content-Disposition\<close> header and raises
  \<open>ValueError\<close> when it holds a carriage return or a line feed.
\<close>

definition header_newline :: "string \<Rightarrow> bool" where
  "header_newline v = (CHR 0x0D \<in> set v \<or> CHR 0x0A \<in> set v)"

definition retrieve_consciousness :: "world \<Rightarrow> string \<Rightarrow> query \<Rightarrow> response \<times> world" where
  "retrieve_consciousness st vid args =
     (if \<not> UUID_parses vid then ((ErrorBody ''Invalid vault ID format'', 400), st)
      else
        let metadata_only =
              (py_lower (case arg_metadata_only args of None \<Rightarrow> ''false'' | Some v \<Rightarrow> v) = ''true'')
        in if metadata_only then
             (case vault_log st of
                None \<Rightarrow> ((ErrorBody ''Vault log not found'', 404), st)
              | Some lines \<Rightarrow> (scan_metadata vid lines, st))
           else if \<not> truthy (arg_filename args) then
             ((ErrorBody ''Filename required for file retrieval'', 400), st)
           else
             let fname = the (arg_filename args) in
             case download_from_spaces st vid fname of
               (Inl e, st1) \<Rightarrow> ((ErrorBody ''Internal server error during retrieval'', 500), st1)
             | (Inr None, st1) \<Rightarrow>
                 ((ErrorBody ''File not found in vault'', 404),
                  log_vault_operation st1 ''retrieve'' fname [] vid ''failed''
                    (Some ''File not found in vault''))
             | (Inr (Some file_content), st1) \<Rightarrow>
                 let st2 = log_vault_operation st1 ''retrieve'' fname
                             (calculate_sha256 file_content) vid ''success'' None
                 in if header_newline fname
                    then ((ErrorBody ''Internal server error during retrieval'', 500), st2)
                    else ((Attachment file_content fname, 200), st2))"

text \<open>The loop of the verification handler; \<open>None\<close> when it ends without a \<open>break\<close>.\<close>

fun find_original_hash :: "string \<Rightarrow> string \<Rightarrow> vault_entry list \<Rightarrow> string option" where
  "find_original_hash vid fname [] = None"
| "find_original_hash vid fname (entry # rest) =
     (if vault_id entry = vid \<and> filename entry = fname \<and> operation entry = ''ingest''
      then Some (sha256_hash entry)
      else find_original_hash vid fname rest)"

definition verify_consciousness :: "world \<Rightarrow> string \<Rightarrow> query \<Rightarrow> response \<times> world" where
  "verify_consciousness st vid args =
     (if \<not> UUID_parses vid then ((ErrorBody ''Invalid vault ID format'', 400), st)
      else if \<not> truthy (arg_filename args) then
        ((ErrorBody ''Filename required for verification'', 400), st)
      else
        let fname = the (arg_filename args) in
        case download_from_spaces st vid fname of
          (Inl e, st1) \<Rightarrow> ((ErrorBody ''Internal server error during verification'', 500), st1)
        | (Inr None, st1) \<Rightarrow> ((ErrorBody ''File not found in vault'', 404), st1)
        | (Inr (Some file_content), st1) \<Rightarrow>
            let current = calculate_sha256 file_content in
            case vault_log st1 of
              None \<Rightarrow> ((ErrorBody ''Vault log not found'', 404), st1)
            | Some lines \<Rightarrow>
                let original = find_original_hash vid fname lines in
                if \<not> truthy original then
                  ((ErrorBody ''Original hash not found in vault log'', 404), st1)
                else
                  let (now, st2) = utcnow st1
                  in ((VerifyBody vid fname (the original) current (current = the original)
                         (length file_content) now, 200), st2))"


section \<open>bastion\_cron.py\<close>

definition log_integrity_check ::
  "world \<Rightarrow> string \<Rightarrow> string \<Rightarrow> string \<Rightarrow> string option \<Rightarrow> string option \<Rightarrow> string option \<Rightarrow> world" where
  "log_integrity_check st vid fname stat original current err =
     (let (now, st1) = utcnow st;
          log_entry = IntegrityVerification now vid fname stat original current
                        (if truthy original \<and> truthy current then Some (original = current) else None)
                        err
      in st1\<lparr>integrity_log := append_line (integrity_log st1) log_entry\<rparr>)"

record file_info =
  fi_vault_id :: string
  fi_filename :: string
  fi_original_hash :: string
  fi_timestamp :: datetime

definition get_vault_files :: "world \<Rightarrow> file_info list" where
  "get_vault_files st =
     (case vault_log st of
        None \<Rightarrow> []
      | Some lines \<Rightarrow>
          map (\<lambda>entry. \<lparr>fi_vault_id = vault_id entry, fi_filename = filename entry,
                         fi_original_hash = sha256_hash entry, fi_timestamp = timestamp entry\<rparr>)
            (filter (\<lambda>entry. operation entry = ''ingest'' \<and> status entry = ''success'') lines))"

text \<open>\<open>str(e)\<close> of an exception.\<close>

fun exn_message :: "exn \<Rightarrow> string" where
  "exn_message ClientError = ''An error occurred''"
| "exn_message (OtherException m) = m"

definition verify_file_integrity :: "world \<Rightarrow> string \<Rightarrow> string \<Rightarrow> string \<Rightarrow> bool \<times> world" where
  "verify_file_integrity st vid fname original =
     (case download_from_spaces st vid fname of
        (Inl e, st1) \<Rightarrow>
          (False, log_integrity_check st1 vid fname ''error'' (Some original) None
                    (Some (exn_message e)))
      | (Inr None, st1) \<Rightarrow>
          (False, log_integrity_check st1 vid fname ''failed'' (Some original) None
                    (Some ''File not found in Spaces''))
      | (Inr (Some file_content), st1) \<Rightarrow>
          let current = calculate_sha256 file_content in
          if current = original
          then (True, log_integrity_check st1 vid fname ''verified'' (Some original) (Some current) None)
          else (False, log_integrity_check st1 vid fname ''corrupted'' (Some original) (Some current)
                         (Some ''Hash mismatch'')))"

definition check_spaces_connectivity :: "world \<Rightarrow> (exn + bool) \<times> world" where
  "check_spaces_connectivity st =
     (case head_bucket st of
        (Inr u, st1) \<Rightarrow> (Inr True, st1)
      | (Inl ClientError, st1) \<Rightarrow> (Inr False, st1)
      | (Inl (OtherException m), st1) \<Rightarrow> (Inl (OtherException m), st1))"

text \<open>The loop of \<open>run_integrity_check\<close> over the catalog, with its two counters.\<close>

fun check_files :: "file_info list \<Rightarrow> nat \<Rightarrow> nat \<Rightarrow> world \<Rightarrow> nat \<times> nat \<times> world" where
  "check_files [] verified_count failed_count st = (verified_count, failed_count, st)"
| "check_files (file_info # rest) verified_count failed_count st =
     (case verify_file_integrity st (fi_vault_id file_info) (fi_filename file_info)
             (fi_original_hash file_info) of
        (True, st1) \<Rightarrow> check_files rest (verified_count + 1) failed_count st1
      | (False, st1) \<Rightarrow> check_files rest verified_count (failed_count + 1) st1)"

text \<open>\<open>Some e\<close> is an exception that leaves the function; \<open>None\<close> a normal return.\<close>

definition run_integrity_check :: "world \<Rightarrow> exn option \<times> world" where
  "run_integrity_check st =
     (let (check_start_time, st0) = utcnow st in
      case check_spaces_connectivity st0 of
        (Inl e, st1) \<Rightarrow> (Some e, st1)
      | (Inr False, st1) \<Rightarrow> (None, st1)
      | (Inr True, st1) \<Rightarrow>
          let vault_files = get_vault_files st1 in
          if vault_files = [] then (None, st1)
          else
            let (verified_count, failed_count, st2) = check_files vault_files 0 0 st1;
                (finished, st3) = utcnow st2;
                (now, st4) = utcnow st3;
                summary_log = IntegritySummary now (length vault_files) verified_count failed_count
                                (finished - check_start_time) ''completed''
            in (None, st4\<lparr>integrity_log := append_line (integrity_log st4) summary_log\<rparr>))"

text \<open>\<open>lines[-n:]\<close> for \<open>n > 0\<close>.\<close>

definition py_last :: "nat \<Rightarrow> 'a list \<Rightarrow> 'a list" where
  "py_last n xs = drop (nat (max 0 (int (length xs) - int n))) xs"

definition cleanup_old_logs :: "world \<Rightarrow> world" where
  "cleanup_old_logs st =
     (case integrity_log st of
        None \<Rightarrow> st
      | Some lines \<Rightarrow>
          if length lines > 1000 then st\<lparr>integrity_log := Some (py_last 1000 lines)\<rparr> else st)"

text \<open>The script body: the cleanup is skipped when the check raises.\<close>

definition bastion_main :: "world \<Rightarrow> world" where
  "bastion_main st =
     (case run_integrity_check st of
        (None, st1) \<Rightarrow> cleanup_old_logs st1
      | (Some e, st1) \<Rightarrow>
          let (now, st2) = utcnow st1
          in st2\<lparr>integrity_log :=
                   append_line (integrity_log st2) (FatalError now (exn_message e) ''failed'')\<rparr>)"


section \<open>The states of a running service\<close>

text \<open>The identifier that the next accepted ingest gives out.\<close>

definition ingest_vid :: "world \<Rightarrow> string" where
  "ingest_vid st = uuid_str (uuid4 (entropy st (draws st)))"

text \<open>
  The service is the only writer of \<open>vault_log.jsonl\<close>. A state is reachable when its audit
  log was written by the three handlers, starting from a missing or empty file. Everything
  else (the bucket, the answers of the store, the clock, the integrity trail) may change
  in any way between two requests: other programs and people act on them.
\<close>

inductive reachable :: "world \<Rightarrow> bool" where
  fresh: "file_lines (vault_log st) = [] \<Longrightarrow> reachable st"
| ingest: "reachable st \<Longrightarrow> reachable (snd (ingest_consciousness st req))"
| retrieve: "reachable st \<Longrightarrow> reachable (snd (retrieve_consciousness st vid args))"
| verify: "reachable st \<Longrightarrow> reachable (snd (verify_consciousness st vid args))"
| elsewhere: "reachable st \<Longrightarrow> vault_log st' = vault_log st \<Longrightarrow> reachable st'"

text \<open>What the handlers maintain: an ingest record carries a full digest and a file name.\<close>

definition ingest_record_ok :: "vault_entry \<Rightarrow> bool" where
  "ingest_record_ok e =
     (operation e = ''ingest'' \<longrightarrow> length (sha256_hash e) = 64 \<and> filename e \<noteq> [])"

definition audit_log_ok :: "world \<Rightarrow> bool" where
  "audit_log_ok st = list_all ingest_record_ok (file_lines (vault_log st))"


section \<open>The outcomes expected of an auditor run\<close>




section \<open>Example states\<close>

text \<open>A fresh deployment: an empty bucket that answers every call, no log file yet.\<close>

definition world0 :: world where
  "world0 = \<lparr>objects = Map.empty, faults = (\<lambda>n. None), calls = 0, vault_log = None,
              integrity_log = None, clock = (\<lambda>n. int n), ticks = 0,
              entropy = (\<lambda>n. word_of_nat n), draws = 0\<rparr>"

text \<open>An integrity trail of 1200 lines.\<close>

definition trail_1200 :: "integrity_line list" where
  "trail_1200 = map (\<lambda>n. FatalError (int n) ''boom'' ''failed'') [0..<1200]"


text \<open>The upload of the end-to-end scenario, the state after it is ingested into a fresh
  deployment, the identifier it gets there, and the query for it.\<close>

definition note_txt :: upload where
  "note_txt = \<lparr>upload_filename = ''note.txt'', upload_content = ascii ''hello12345''\<rparr>"

definition note_request :: request where
  "note_request = \<lparr>framing = 190, file_part = Some note_txt\<rparr>"

definition vid1 :: string where
  "vid1 = uuid_str (uuid4 (entropy world0 0))"

definition world1 :: world where
  "world1 = snd (ingest_consciousness world0 note_request)"

definition ask_note :: query where
  "ask_note = \<lparr>arg_filename = Some ''note.txt'', arg_metadata_only = None\<rparr>"


text \<open>A store that refuses every request, and one that cannot be reached at all (the
  client then raises an exception that is not a \<open>ClientError\<close>).\<close>

definition rejecting :: world where
  "rejecting = world0\<lparr>faults := (\<lambda>n. Some ClientError)\<rparr>"



text \<open>A metadata query, and the state after an ingest that the store refused.\<close>

definition ask_metadata :: query where
  "ask_metadata = \<lparr>arg_filename = None, arg_metadata_only = Some ''TRUE''\<rparr>"

definition world_rejected :: world where
  "world_rejected = snd (ingest_consciousness rejecting note_request)"


text \<open>The scenario of the periodic auditor: three files ingested into a fresh deployment,
  then the blob of the second one deleted from the bucket.\<close>

definition vid2 :: string where
  "vid2 = uuid_str (uuid4 (entropy world0 1))"

definition vid3 :: string where
  "vid3 = uuid_str (uuid4 (entropy world0 2))"




text \<open>
  The tampering scenario: the bytes \<open>c\<close> are ingested as \<open>note.txt\<close> into a fresh
  deployment, the blob is then replaced in the bucket by the bytes \<open>c'\<close>, and the entry is
  verified.
\<close>

definition tampered_verification :: "bytes \<Rightarrow> bytes \<Rightarrow> response" where
  "tampered_verification c c' =
     (let st1 = snd (ingest_consciousness world0
                  \<lparr>framing = 190,
                     file_part = Some \<lparr>upload_filename = ''note.txt'', upload_content = c\<rparr>\<rparr>);
          st2 = st1\<lparr>objects := (objects st1)(object_key vid1 ''note.txt'' \<mapsto> c')\<rparr>
      in fst (verify_consciousness st2 vid1 ask_note))"


section \<open>Facts about digests and identifiers\<close>

lemma length_hex_fixed: "length (hex_fixed n i) = n"
  by (simp add: hex_fixed_def)


lemma hex_char_lower: "hex_char n \<in> lower_hex"
  unfolding hex_char_def lower_hex_def by (rule nth_mem) simp

lemma set_hex_fixed: "set (hex_fixed n i) \<subseteq> lower_hex"
  unfolding hex_fixed_def using hex_char_lower by auto

lemma length_hexdigest: "length (hexdigest hs) = 64"
  by (cases hs rule: hexdigest.cases) (simp add: length_hex_fixed)

lemma set_hexdigest: "set (hexdigest hs) \<subseteq> lower_hex"
  using set_hex_fixed by (cases hs rule: hexdigest.cases) (simp add: subset_iff)

lemma length_calculate_sha256: "length (calculate_sha256 c) = 64"
  unfolding calculate_sha256_def by (rule length_hexdigest)

lemma set_calculate_sha256: "set (calculate_sha256 c) \<subseteq> lower_hex"
  unfolding calculate_sha256_def by (rule set_hexdigest)

lemma calculate_sha256_nonempty: "calculate_sha256 c \<noteq> []"
  using length_calculate_sha256 [of c] by auto

text \<open>There are more strings of 33 bytes than digests, so two of them share one.\<close>

lemma short_collision:
  "\<exists>c c'. c \<noteq> c' \<and> length c = 33 \<and> length c' = 33 \<and> calculate_sha256 c = calculate_sha256 c'"
proof -
  let ?A = "{c :: bytes. set c \<subseteq> UNIV \<and> length c = 33}"
  let ?B = "{s. set s \<subseteq> lower_hex \<and> length s = 64}"
  have fin: "finite lower_hex" and small: "card lower_hex \<le> 16"
    using card_length [of "''0123456789abcdef''"] by (simp_all add: lower_hex_def)
  have "calculate_sha256 ` ?A \<subseteq> ?B"
    using length_calculate_sha256 set_calculate_sha256 by auto
  moreover have finB: "finite ?B"
    using fin by (rule finite_lists_length_eq)
  ultimately have "card (calculate_sha256 ` ?A) \<le> card ?B"
    by (intro card_mono)
  also have "card ?B = card lower_hex ^ 64"
    using fin by (rule card_lists_length_eq)
  also have "\<dots> \<le> (16::nat) ^ 64"
    using small by (rule power_mono) simp
  also have "\<dots> < (256::nat) ^ 33"
    by simp
  also have "\<dots> = card ?A"
    using card_lists_length_eq [of "UNIV :: byte set" 33] by (simp add: card_word)
  finally have "\<not> inj_on calculate_sha256 ?A"
    using pigeonhole by blast
  then show ?thesis
    unfolding inj_on_def by auto
qed

lemma py_remove_absent: "old \<noteq> [] \<Longrightarrow> hd old \<notin> set s \<Longrightarrow> py_remove old s = s"
proof (induction s)
  case Nil
  then show ?case by (subst py_remove.simps) simp
next
  case (Cons c s)
  have "take (length old) (c # s) \<noteq> old"
  proof
    assume "take (length old) (c # s) = old"
    then have "hd old = c" using Cons.prems(1) by (cases old) auto
    with Cons.prems(2) show False by simp
  qed
  moreover have "py_remove old s = s" using Cons by simp
  ultimately show ?case using Cons.prems(1) by (subst py_remove.simps) simp
qed

lemma py_remove_single: "py_remove [c] s = filter (\<lambda>x. x \<noteq> c) s"
proof (induction s)
  case Nil
  then show ?case by (subst py_remove.simps) simp
next
  case (Cons a s)
  show ?case
  proof (cases "a = c")
    case True
    then have "py_remove [c] (a # s) = py_remove [c] s"
      by (subst py_remove.simps) simp
    with True Cons show ?thesis by simp
  next
    case False
    then have "py_remove [c] (a # s) = a # py_remove [c] s"
      by (subst py_remove.simps) simp
    with False Cons show ?thesis by simp
  qed
qed

lemma py_strip_id: "s \<noteq> [] \<Longrightarrow> hd s \<notin> set chars \<Longrightarrow> last s \<notin> set chars \<Longrightarrow> py_strip chars s = s"
proof -
  assume a: "s \<noteq> []" "hd s \<notin> set chars" "last s \<notin> set chars"
  have 1: "dropWhile (\<lambda>c. c \<in> set chars) s = s"
    using a by (cases s) auto
  have 2: "dropWhile (\<lambda>c. c \<in> set chars) (rev s) = rev s"
    using a by (cases "rev s") (auto simp: last_rev hd_rev)
  show ?thesis by (simp add: py_strip_def 1 2)
qed

lemma lower_hex_not: "CHR ''-'' \<notin> lower_hex" "CHR ''u'' \<notin> lower_hex"
  "CHR ''{'' \<notin> lower_hex" "CHR ''}'' \<notin> lower_hex"
  by (simp_all add: lower_hex_def)

lemma lower_hex_is_hex: "c \<in> lower_hex \<Longrightarrow> is_hex c"
  by (auto simp: lower_hex_def is_hex_def)

lemma no_adjacent_underscores: "CHR ''_'' \<notin> set s \<Longrightarrow> \<not> adjacent_underscores s"
  by (induction s rule: adjacent_underscores.induct) auto

lemma lower_hex_plain:
  assumes "c \<in> lower_hex"
  shows "\<not> int_space c" and "c \<noteq> CHR ''+''" and "c \<noteq> CHR ''-''" and "c \<noteq> CHR ''_''"
    and "c \<noteq> CHR ''x''" and "c \<noteq> CHR ''X''"
  using assms by (auto simp: lower_hex_def int_space_def)

text \<open>A string of lowercase hexadecimal digits is read by \<open>int(s, 16)\<close>.\<close>

lemma int16_parses_lower_hex:
  assumes "s \<noteq> []" and "set s \<subseteq> lower_hex"
  shows "int16_parses s"
proof -
  obtain a r where s: "s = a # r" using assms(1) by (cases s) auto
  have a: "a \<in> lower_hex" using assms(2) s by simp
  have all_hex: "\<forall>c\<in>set s. is_hex c \<or> c = CHR ''_''"
    using assms(2) lower_hex_is_hex by auto
  have blank: "dropWhile int_space s = s"
    using lower_hex_plain(1) [OF a] s by simp
  have sign: "take 1 s \<noteq> ''+''" "take 1 s \<noteq> ''-''"
    using lower_hex_plain(2,3) [OF a] s by auto
  have prefix: "take 2 s \<noteq> ''0x''" "take 2 s \<noteq> ''0X''"
  proof -
    show "take 2 s \<noteq> ''0x''"
    proof (cases r)
      case Nil
      then show ?thesis using s by simp
    next
      case (Cons b r')
      then have "b \<in> lower_hex" using assms(2) s by simp
      then show ?thesis using lower_hex_plain(5) s Cons by auto
    qed
    show "take 2 s \<noteq> ''0X''"
    proof (cases r)
      case Nil
      then show ?thesis using s by simp
    next
      case (Cons b r')
      then have "b \<in> lower_hex" using assms(2) s by simp
      then show ?thesis using lower_hex_plain(6) s Cons by auto
    qed
  qed
  have body: "takeWhile (\<lambda>c. is_hex c \<or> c = CHR ''_'') s = s"
    "dropWhile (\<lambda>c. is_hex c \<or> c = CHR ''_'') s = []"
    using all_hex by simp_all
  have plain: "CHR ''_'' \<notin> set s"
    using assms(2) lower_hex_plain(4) by auto
  moreover have "hd s \<in> set s" "last s \<in> set s"
    using assms(1) by simp_all
  ultimately have "hd s \<noteq> CHR ''_''" "last s \<noteq> CHR ''_''" "\<not> adjacent_underscores s"
    using no_adjacent_underscores by auto
  moreover have unsigned: "(if take 1 s = ''+'' \<or> take 1 s = ''-'' then drop 1 s else s) = s"
    using sign by simp
  moreover have digits:
    "(if take 2 s = ''0x'' \<or> take 2 s = ''0X''
      then (if take 1 (drop 2 s) = ''_'' then drop 3 s else drop 2 s) else s) = s"
    using prefix by simp
  ultimately show ?thesis
    unfolding int16_parses_def Let_def blank unsigned digits body
    using assms(1) by simp
qed

lemma UUID_parses_uuid_str: "UUID_parses (uuid_str i)"
proof -
  define h where "h = hex_fixed 32 i"
  define s where "s = uuid_str i"
  have len: "length h = 32" by (simp add: h_def length_hex_fixed)
  have hs: "set h \<subseteq> lower_hex"
    unfolding h_def by (rule set_hex_fixed)
  have s_eq: "s = take 8 h @ ''-'' @ take 4 (drop 8 h) @ ''-'' @ take 4 (drop 12 h) @ ''-''
           @ take 4 (drop 16 h) @ ''-'' @ drop 20 h"
    by (simp add: s_def uuid_str_def h_def Let_def)
  have parts: "set (take n h) \<subseteq> lower_hex" "set (drop n h) \<subseteq> lower_hex"
    "set (take n (drop m h)) \<subseteq> lower_hex" for n m
    using hs set_take_subset [of n h] set_drop_subset [of n h]
      set_take_subset [of n "drop m h"] set_drop_subset [of m h] by blast+
  have set_s: "set s \<subseteq> insert (CHR ''-'') lower_hex"
    unfolding s_eq using parts by (simp add: subset_insertI2)
  have "CHR ''u'' \<notin> set s"
    using set_s lower_hex_not by auto
  then have r1: "py_remove ''urn:'' s = s" and r2: "py_remove ''uuid:'' s = s"
    by (simp_all add: py_remove_absent)
  have ne: "s \<noteq> []" by (simp add: s_eq)
  obtain a h' where h: "h = a # h'" using len by (cases h) auto
  have "hd s = a" unfolding s_eq h by simp
  then have hd_in: "hd s \<in> lower_hex" using hs h by auto
  have "drop 20 h \<noteq> []" using len by simp
  then have "last s = last (drop 20 h)" unfolding s_eq by simp
  also have "\<dots> \<in> set (drop 20 h)" using \<open>drop 20 h \<noteq> []\<close> by (rule last_in_set)
  finally have last_in: "last s \<in> lower_hex" using parts(2) by blast
  have "hd s \<notin> set ''{}''" "last s \<notin> set ''{}''"
    using hd_in last_in lower_hex_not by auto
  then have r3: "py_strip ''{}'' s = s"
    using ne by (intro py_strip_id)
  have flt: "filter (\<lambda>x. x \<noteq> CHR ''-'') xs = xs" if "set xs \<subseteq> lower_hex" for xs
    using that lower_hex_not(1) by (intro filter_True) auto
  have r4: "py_remove ''-'' s = h"
  proof -
    have "py_remove ''-'' s = take 8 h @ take 4 (drop 8 h) @ take 4 (drop 12 h) @ take 4 (drop 16 h) @ drop 20 h"
      unfolding py_remove_single s_eq by (simp add: flt parts)
    also have "\<dots> = h"
    proof -
      have a: "take 4 (drop 16 h) @ drop 20 h = drop 16 h"
        using append_take_drop_id [of 4 "drop 16 h"] by simp
      have b: "take 4 (drop 12 h) @ drop 16 h = drop 12 h"
        using append_take_drop_id [of 4 "drop 12 h"] by simp
      have c: "take 4 (drop 8 h) @ drop 12 h = drop 8 h"
        using append_take_drop_id [of 4 "drop 8 h"] by simp
      show ?thesis by (simp only: a b c append_take_drop_id)
    qed
    finally show ?thesis .
  qed
  have "h \<noteq> []" using len by auto
  then have "int16_parses h"
    using hs by (rule int16_parses_lower_hex)
  then show ?thesis
    using len by (simp add: UUID_parses_def r1 r2 r3 r4 s_def [symmetric])
qed


section \<open>Log retention\<close>

lemma py_last_drop: "n \<le> length xs \<Longrightarrow> py_last n xs = drop (length xs - n) xs"
  by (simp add: py_last_def nat_diff_distrib' flip: of_nat_diff)

text \<open>
  Claim C6. Whenever the integrity trail holds more than 1000 records,
  \<open>cleanup_old_logs\<close> leaves exactly the 1000 most recent ones, in their original order:
  the trail before the cleanup is the dropped records followed by the kept ones, so the
  oldest records are the ones dropped.
\<close>

theorem cleanup_keeps_last_1000:
  assumes "integrity_log st = Some lines" and "1000 < length lines"
  shows "\<exists>dropped kept.
           integrity_log (cleanup_old_logs st) = Some kept \<and> lines = dropped @ kept
           \<and> length kept = 1000 \<and> length dropped = length lines - 1000"
proof -
  let ?kept = "drop (length lines - 1000) lines"
  have "py_last 1000 lines = ?kept"
    using assms(2) by (simp add: py_last_drop)
  then have "integrity_log (cleanup_old_logs st) = Some ?kept"
    using assms by (simp add: cleanup_old_logs_def)
  moreover have "lines = take (length lines - 1000) lines @ ?kept"
    by simp
  moreover have "length ?kept = 1000" "length (take (length lines - 1000) lines) = length lines - 1000"
    using assms(2) by simp_all
  ultimately show ?thesis by blast
qed

text \<open>The scenario of the specification: 1200 records, of which the last 1000 remain.\<close>

theorem cleanup_keeps_last_1000_witness:
  "\<exists>dropped kept.
     integrity_log (cleanup_old_logs (world0\<lparr>integrity_log := Some trail_1200\<rparr>)) = Some kept
     \<and> trail_1200 = dropped @ kept \<and> length kept = 1000 \<and> length dropped = 200"
  using cleanup_keeps_last_1000 [of "world0\<lparr>integrity_log := Some trail_1200\<rparr>" trail_1200]
  by (simp add: trail_1200_def)


section \<open>The storage adapter and the end-to-end scenario\<close>

lemma download_state:
  "snd (download_from_spaces st vid fname) = st\<lparr>calls := Suc (calls st)\<rparr>"
  by (simp add: download_from_spaces_def get_object_def split: option.splits exn.splits)

lemma download_found:
  "faults st (calls st) = None \<Longrightarrow> objects st (object_key vid fname) = Some c \<Longrightarrow>
     download_from_spaces st vid fname = (Inr (Some c), st\<lparr>calls := Suc (calls st)\<rparr>)"
  by (simp add: download_from_spaces_def get_object_def)

lemma download_missing:
  "faults st (calls st) = None \<Longrightarrow> objects st (object_key vid fname) = None \<Longrightarrow>
     download_from_spaces st vid fname = (Inr None, st\<lparr>calls := Suc (calls st)\<rparr>)"
  by (simp add: download_from_spaces_def get_object_def)

lemma length_ascii: "length (ascii s) = length s"
  by (simp add: ascii_def)

lemma secure_filename_note: "secure_filename ''note.txt'' = ''note.txt''"
  by code_simp

lemma world1_eq:
  "world1 = world0\<lparr>objects := [object_key vid1 ''note.txt'' \<mapsto> ascii ''hello12345''],
       calls := 1, draws := 1, ticks := 2,
       vault_log := Some [\<lparr>timestamp = 0, operation = ''ingest'', filename = ''note.txt'',
         sha256_hash = calculate_sha256 (ascii ''hello12345''), vault_id = vid1,
         status = ''success'', error = None\<rparr>]\<rparr>"
  by (simp add: world1_def ingest_consciousness_def note_request_def content_length_def
        MAX_CONTENT_LENGTH_def note_txt_def length_ascii secure_filename_note
        urandom16_def upload_to_spaces_def put_object_def log_vault_operation_def utcnow_def
        append_line_def world0_def vid1_def Let_def)

lemma verify_world1:
  "verify_consciousness world1 vid1 ask_note =
     ((VerifyBody vid1 ''note.txt'' (calculate_sha256 (ascii ''hello12345''))
         (calculate_sha256 (ascii ''hello12345'')) True 10 2, 200),
      world1\<lparr>calls := 2, ticks := 3\<rparr>)"
proof -
  show ?thesis
    by (simp add: verify_consciousness_def ask_note_def truthy_def
          download_from_spaces_def get_object_def
          UUID_parses_uuid_str [of "uuid4 (entropy world0 0)", folded vid1_def]
          calculate_sha256_nonempty utcnow_def Let_def world1_eq world0_def length_ascii)
qed

lemma verify_frame:
  "vault_log (snd (verify_consciousness st vid args)) = vault_log st
     \<and> integrity_log (snd (verify_consciousness st vid args)) = integrity_log st
     \<and> objects (snd (verify_consciousness st vid args)) = objects st"
proof -
  obtain r st1 where d: "download_from_spaces st vid (the (arg_filename args)) = (r, st1)"
    by (cases "download_from_spaces st vid (the (arg_filename args))")
  then have st1: "st1 = st\<lparr>calls := Suc (calls st)\<rparr>"
    using download_state [of st vid "the (arg_filename args)"] by simp
  show ?thesis
    by (simp add: verify_consciousness_def d st1 utcnow_def Let_def
          split: sum.splits option.splits)
qed

section \<open>Verification and the audit log\<close>

text \<open>
  Claim C4, as amended. The verification handler never writes to a log file: whatever it
  answers, the audit log, the integrity trail and the bucket are what they were before the
  call. (Only the clock and the count of storage calls advance.)
\<close>

theorem verify_appends_nothing:
  "vault_log (snd (verify_consciousness st vid args)) = vault_log st
     \<and> integrity_log (snd (verify_consciousness st vid args)) = integrity_log st
     \<and> objects (snd (verify_consciousness st vid args)) = objects st"
  by (rule verify_frame)

theorem verify_appends_nothing_witness:
  "vault_log (snd (verify_consciousness world1 vid1 ask_note)) = vault_log world1
     \<and> integrity_log (snd (verify_consciousness world1 vid1 ask_note)) = integrity_log world1
     \<and> objects (snd (verify_consciousness world1 vid1 ask_note)) = objects world1"
  using verify_appends_nothing [of world1 vid1 ask_note] by simp

text \<open>
  Claim C4 as stated fails: the verification of the end-to-end scenario reaches its result
  (status 200) and the audit log holds the same records afterwards.
\<close>

theorem verify_not_audited_counterexample:
  "snd (fst (verify_consciousness world1 vid1 ask_note)) = 200
     \<and> file_lines (vault_log (snd (verify_consciousness world1 vid1 ask_note)))
         = file_lines (vault_log world1)"
  by (simp add: verify_world1)


section \<open>The integrity check records of the auditor\<close>

lemma file_lines_simps: "file_lines None = []" "file_lines (Some ls) = ls"
  by (simp_all add: file_lines_def)

lemma log_integrity_check_lines:
  "file_lines (integrity_log (log_integrity_check st vid fname stat orig cur err)) =
     file_lines (integrity_log st) @
       [IntegrityVerification (clock st (ticks st)) vid fname stat orig cur
          (if truthy orig \<and> truthy cur then Some (orig = cur) else None) err]"
  by (simp add: log_integrity_check_def utcnow_def append_line_def file_lines_def Let_def
        split: option.splits)

lemma download_calls:
  "download_from_spaces st vid fname = (r, st1) \<Longrightarrow> st1 = st\<lparr>calls := Suc (calls st)\<rparr>"
  using download_state [of st vid fname] by simp

text \<open>
  Claim C10. Every call of \<open>verify_file_integrity\<close> appends exactly one integrity check
  record. When that record has status \<open>failed\<close> or \<open>error\<close> its current hash and its
  \<open>integrity_verified\<close> field are null; this is the case whenever the download does not
  return the bytes (the store reports an error, or the client raises). And
  \<open>integrity_verified\<close> is a boolean only when the original and the current hash are both
  present and non-empty, and then it is their equality.
\<close>

theorem integrity_verified_null_on_failure:
  "\<exists>line. file_lines (integrity_log (snd (verify_file_integrity st vid fname oh)))
              = file_lines (integrity_log st) @ [line]
     \<and> is_IntegrityVerification line
     \<and> (iv_status line = ''failed'' \<or> iv_status line = ''error''
          \<longrightarrow> current_hash line = None \<and> integrity_verified line = None)
     \<and> ((\<forall>c. fst (download_from_spaces st vid fname) \<noteq> Inr (Some c))
          \<longrightarrow> iv_status line = ''failed'' \<or> iv_status line = ''error'')
     \<and> (\<forall>b. integrity_verified line = Some b
          \<longrightarrow> truthy (original_hash line) \<and> truthy (current_hash line)
              \<and> b = (original_hash line = current_hash line))"
proof -
  obtain r st1 where d: "download_from_spaces st vid fname = (r, st1)"
    by (cases "download_from_spaces st vid fname")
  have st1: "st1 = st\<lparr>calls := Suc (calls st)\<rparr>"
    using d by (rule download_calls)
  show ?thesis
  proof (cases r)
    case (Inl e)
    then show ?thesis
      by (simp add: verify_file_integrity_def d st1 log_integrity_check_lines truthy_def)
  next
    case (Inr found)
    show ?thesis
    proof (cases found)
      case None
      with Inr show ?thesis
        by (simp add: verify_file_integrity_def d st1 log_integrity_check_lines truthy_def)
    next
      case (Some c)
      with Inr show ?thesis
        by (simp add: verify_file_integrity_def d st1 log_integrity_check_lines Let_def)
    qed
  qed
qed

text \<open>A blob that is missing from the bucket: status \<open>failed\<close>, both fields null.\<close>

theorem integrity_verified_null_on_failure_witness:
  "file_lines (integrity_log (snd (verify_file_integrity world0 vid1 ''note.txt''
       (calculate_sha256 (ascii ''hello12345'')))))
     = [IntegrityVerification 0 vid1 ''note.txt'' ''failed''
          (Some (calculate_sha256 (ascii ''hello12345''))) None None
          (Some ''File not found in Spaces'')]"
  using integrity_verified_null_on_failure
          [of world0 vid1 "''note.txt''" "calculate_sha256 (ascii ''hello12345'')"]
  by (simp add: verify_file_integrity_def download_from_spaces_def get_object_def
        log_integrity_check_lines world0_def file_lines_simps truthy_def)


section \<open>The ingest handler, case by case\<close>

lemma ingest_too_large:
  assumes "MAX_CONTENT_LENGTH < content_length req"
  shows "ingest_consciousness st req =
    ((ErrorBody ''Internal server error during ingestion'', 500), st)"
  using assms by (simp add: ingest_consciousness_def)

lemma ingest_stored:
  assumes "content_length req \<le> MAX_CONTENT_LENGTH" and "file_part req = Some up"
    and "upload_filename up \<noteq> []" "secure_filename (upload_filename up) = f" "f \<noteq> []"
    and "faults st (calls st) = None"
  shows "ingest_consciousness st req =
    ((IngestBody (ingest_vid st) f (calculate_sha256 (upload_content up))
        (length (upload_content up)) (clock st (Suc (ticks st))), 200),
     st\<lparr>objects := (objects st)(object_key (ingest_vid st) f \<mapsto> upload_content up),
        calls := Suc (calls st), draws := Suc (draws st), ticks := Suc (Suc (ticks st)),
        vault_log := append_line (vault_log st)
          \<lparr>timestamp = clock st (ticks st), operation = ''ingest'', filename = f,
           sha256_hash = calculate_sha256 (upload_content up), vault_id = ingest_vid st,
           status = ''success'', error = None\<rparr>\<rparr>)"
  using assms
  by (simp add: ingest_consciousness_def urandom16_def upload_to_spaces_def put_object_def
        log_vault_operation_def utcnow_def ingest_vid_def Let_def)

lemma ingest_rejected:
  assumes "content_length req \<le> MAX_CONTENT_LENGTH" and "file_part req = Some up"
    and "upload_filename up \<noteq> []" "secure_filename (upload_filename up) = f" "f \<noteq> []"
    and "faults st (calls st) = Some ClientError"
  shows "ingest_consciousness st req =
    ((ErrorBody ''Failed to store file in vault'', 500),
     st\<lparr>calls := Suc (calls st), draws := Suc (draws st), ticks := Suc (ticks st),
        vault_log := append_line (vault_log st)
          \<lparr>timestamp = clock st (ticks st), operation = ''ingest'', filename = f,
           sha256_hash = calculate_sha256 (upload_content up), vault_id = ingest_vid st,
           status = ''failed'', error = Some ''Upload to Spaces failed''\<rparr>\<rparr>)"
  using assms
  by (simp add: ingest_consciousness_def urandom16_def upload_to_spaces_def put_object_def
        log_vault_operation_def utcnow_def ingest_vid_def Let_def)

lemma ingest_raised:
  assumes "content_length req \<le> MAX_CONTENT_LENGTH" and "file_part req = Some up"
    and "upload_filename up \<noteq> []" "secure_filename (upload_filename up) = f" "f \<noteq> []"
    and "faults st (calls st) = Some (OtherException m)"
  shows "ingest_consciousness st req =
    ((ErrorBody ''Internal server error during ingestion'', 500),
     st\<lparr>calls := Suc (calls st), draws := Suc (draws st)\<rparr>)"
  using assms
  by (simp add: ingest_consciousness_def urandom16_def upload_to_spaces_def put_object_def Let_def)

lemma ingest_refused:
  assumes "content_length req \<le> MAX_CONTENT_LENGTH"
    and "file_part req = None \<or> upload_filename (the (file_part req)) = []
            \<or> secure_filename (upload_filename (the (file_part req))) = []"
  shows "snd (ingest_consciousness st req) = st"
    and "snd (fst (ingest_consciousness st req)) = 400"
  using assms by (auto simp: ingest_consciousness_def Let_def split: option.splits)

text \<open>The five cases of an ingest.\<close>

lemma ingest_cases:
  obtains (too_large) "MAX_CONTENT_LENGTH < content_length req"
  | (refused) "content_length req \<le> MAX_CONTENT_LENGTH"
      "file_part req = None \<or> upload_filename (the (file_part req)) = []
            \<or> secure_filename (upload_filename (the (file_part req))) = []"
  | (stored) up where "content_length req \<le> MAX_CONTENT_LENGTH" "file_part req = Some up"
      "upload_filename up \<noteq> []" "secure_filename (upload_filename up) \<noteq> []"
      "faults st (calls st) = None"
  | (rejected) up where "content_length req \<le> MAX_CONTENT_LENGTH" "file_part req = Some up"
      "upload_filename up \<noteq> []" "secure_filename (upload_filename up) \<noteq> []"
      "faults st (calls st) = Some ClientError"
  | (raised) up m where "content_length req \<le> MAX_CONTENT_LENGTH" "file_part req = Some up"
      "upload_filename up \<noteq> []" "secure_filename (upload_filename up) \<noteq> []"
      "faults st (calls st) = Some (OtherException m)"
proof (cases "MAX_CONTENT_LENGTH < content_length req")
  case True
  then show ?thesis by (rule too_large)
next
  case size: False
  show ?thesis
  proof (cases "file_part req")
    case None
    then show ?thesis using refused size by simp
  next
    case (Some up)
    show ?thesis
    proof (cases "upload_filename up = [] \<or> secure_filename (upload_filename up) = []")
      case True
      then show ?thesis using refused Some size by auto
    next
      case False
      show ?thesis
      proof (cases "faults st (calls st)")
        case None
        then show ?thesis using stored Some False size by simp
      next
        case answer: (Some e)
        then show ?thesis using rejected raised Some False size by (cases e) auto
      qed
    qed
  qed
qed

lemma file_lines_append: "file_lines (append_line up line) = file_lines up @ [line]"
  by (simp add: append_line_def file_lines_def split: option.splits)

lemma ingest_keeps_audit_log_ok:
  assumes "audit_log_ok st"
  shows "audit_log_ok (snd (ingest_consciousness st req))"
proof (cases rule: ingest_cases [where req = req and st = st])
  case too_large
  then show ?thesis using assms by (simp add: ingest_too_large)
next
  case refused
  then show ?thesis using assms by (simp add: ingest_refused)
next
  case (stored up)
  then show ?thesis using assms
    by (simp add: ingest_stored [where up = up] audit_log_ok_def file_lines_append
          ingest_record_ok_def length_calculate_sha256)
next
  case (rejected up)
  then show ?thesis using assms
    by (simp add: ingest_rejected [where up = up] audit_log_ok_def file_lines_append
          ingest_record_ok_def length_calculate_sha256)
next
  case (raised up m)
  then show ?thesis using assms
    by (simp add: ingest_raised [where up = up] audit_log_ok_def)
qed


section \<open>The audit log of a reachable state\<close>

lemma log_vault_operation_lines:
  "file_lines (vault_log (log_vault_operation st oper fname h vid stat err)) =
     file_lines (vault_log st) @
       [\<lparr>timestamp = clock st (ticks st), operation = oper, filename = fname, sha256_hash = h,
         vault_id = vid, status = stat, error = err\<rparr>]"
  by (simp add: log_vault_operation_def utcnow_def file_lines_append Let_def)

lemma retrieve_lines:
  "\<exists>new. file_lines (vault_log (snd (retrieve_consciousness st vid args)))
            = file_lines (vault_log st) @ new
      \<and> list_all (\<lambda>e. operation e = ''retrieve'') new"
proof -
  obtain r st1 where d: "download_from_spaces st vid (the (arg_filename args)) = (r, st1)"
    by (cases "download_from_spaces st vid (the (arg_filename args))")
  then have st1: "st1 = st\<lparr>calls := Suc (calls st)\<rparr>" by (rule download_calls)
  show ?thesis
  proof (cases r)
    case (Inl e)
    then show ?thesis
      by (simp add: retrieve_consciousness_def d st1 Let_def split: option.splits)
  next
    case (Inr found)
    then show ?thesis
      by (cases found)
        (simp_all add: retrieve_consciousness_def d st1 log_vault_operation_lines Let_def
           split: option.splits)
  qed
qed

lemma retrieve_keeps_audit_log_ok:
  assumes "audit_log_ok st"
  shows "audit_log_ok (snd (retrieve_consciousness st vid args))"
proof -
  obtain new where
    "file_lines (vault_log (snd (retrieve_consciousness st vid args)))
       = file_lines (vault_log st) @ new"
    and "list_all (\<lambda>e. operation e = ''retrieve'') new"
    using retrieve_lines by blast
  then show ?thesis using assms
    by (auto simp: audit_log_ok_def ingest_record_ok_def list_all_iff)
qed

lemma reachable_audit_log_ok: "reachable st \<Longrightarrow> audit_log_ok st"
proof (induction rule: reachable.induct)
  case (fresh st)
  then show ?case by (simp add: audit_log_ok_def)
next
  case (ingest st req)
  then show ?case by (simp add: ingest_keeps_audit_log_ok)
next
  case (retrieve st vid args)
  then show ?case by (simp add: retrieve_keeps_audit_log_ok)
next
  case (verify st vid args)
  then show ?case using verify_frame [of st vid args] by (simp add: audit_log_ok_def)
next
  case (elsewhere st st')
  then show ?case by (simp add: audit_log_ok_def)
qed


lemma secure_filename_empty: "secure_filename [] = []"
  by code_simp

lemma find_original_hash_find:
  "find_original_hash vid fname lines =
     map_option sha256_hash
       (find (\<lambda>e. vault_id e = vid \<and> filename e = fname \<and> operation e = ''ingest'') lines)"
  by (induction lines) simp_all

lemma set_py_strip: "set (py_strip chars s) \<subseteq> set s"
proof -
  have "set (dropWhile P (rev (dropWhile P s))) \<subseteq> set s" for P :: "char \<Rightarrow> bool"
    using set_dropWhileD [of _ P "rev (dropWhile P s)"] set_dropWhileD [of _ P s] by auto
  then show ?thesis by (simp add: py_strip_def)
qed

text \<open>A sanitized name has no character that \<open>send_file\<close> refuses.\<close>

lemma secure_filename_header: "\<not> header_newline (secure_filename name)"
proof -
  have "set (secure_filename name) \<subseteq> {c. filename_char c}"
    using set_py_strip [of "''._''"] by (fastforce simp: secure_filename_def Let_def)
  moreover have "\<not> filename_char (CHR 0x0D)" "\<not> filename_char (CHR 0x0A)"
    by (simp_all add: filename_char_def)
  ultimately show ?thesis
    by (auto simp: header_newline_def)
qed

lemma retrieve_found:
  assumes "UUID_parses vid" and "f \<noteq> []" and "\<not> header_newline f"
    and "faults st (calls st) = None" and "objects st (object_key vid f) = Some c"
  shows "retrieve_consciousness st vid \<lparr>arg_filename = Some f, arg_metadata_only = None\<rparr> =
     ((Attachment c f, 200),
      log_vault_operation (st\<lparr>calls := Suc (calls st)\<rparr>) ''retrieve'' f (calculate_sha256 c) vid
        ''success'' None)"
proof -
  have "py_lower ''false'' \<noteq> ''true''" by (simp add: py_lower_def)
  then show ?thesis using assms
    by (simp add: retrieve_consciousness_def truthy_def download_found)
qed

lemma verify_found:
  assumes "UUID_parses vid" and "arg_filename args = Some f" and "f \<noteq> []"
    and "faults st (calls st) = None" and "objects st (object_key vid f) = Some c"
    and "find (\<lambda>e. vault_id e = vid \<and> filename e = f \<and> operation e = ''ingest'')
           (file_lines (vault_log st)) = Some r"
    and "sha256_hash r \<noteq> []"
  shows "fst (verify_consciousness st vid args) =
     (VerifyBody vid f (sha256_hash r) (calculate_sha256 c) (calculate_sha256 c = sha256_hash r)
        (length c) (clock st (ticks st)), 200)"
proof -
  obtain lines where lines: "vault_log st = Some lines"
    using assms(6) by (cases "vault_log st") (simp_all add: file_lines_simps)
  then have "find_original_hash vid f lines = Some (sha256_hash r)"
    using assms(6) by (simp add: find_original_hash_find file_lines_simps)
  then show ?thesis using assms(1-5,7) lines
    by (simp add: verify_consciousness_def truthy_def download_found utcnow_def Let_def)
qed

section \<open>Round trip\<close>

text \<open>
  Claim C2. Take a request that carries a file, and let the store answer the retrieval.
  Whenever the ingest answers 200, with a vault identifier and a file name \<open>f\<close>, that name
  is the sanitized name of the upload, and retrieving with that identifier and \<open>f\<close> right
  afterwards returns an attachment with exactly the bytes that were uploaded, whatever
  these bytes are. And the ingest does answer 200 with the sanitized name when the request
  is within the size limit, the sanitized name is not empty and the store accepts the put.
\<close>

theorem ingest_then_retrieve:
  assumes "file_part req = Some up" and "faults st (Suc (calls st)) = None"
  shows "(\<forall>vid f h n t.
            fst (ingest_consciousness st req) = (IngestBody vid f h n t, 200) \<longrightarrow>
              f = secure_filename (upload_filename up)
            \<and> fst (retrieve_consciousness (snd (ingest_consciousness st req)) vid
                     \<lparr>arg_filename = Some f, arg_metadata_only = None\<rparr>)
                = (Attachment (upload_content up) f, 200))
       \<and> (content_length req \<le> MAX_CONTENT_LENGTH \<and> secure_filename (upload_filename up) \<noteq> []
            \<and> faults st (calls st) = None \<longrightarrow>
            (\<exists>vid h n t. fst (ingest_consciousness st req)
                           = (IngestBody vid (secure_filename (upload_filename up)) h n t, 200)))"
proof (intro conjI allI impI)
  fix vid f h n t
  assume ok: "fst (ingest_consciousness st req) = (IngestBody vid f h n t, 200)"
  have stored: "f = secure_filename (upload_filename up) \<and> f \<noteq> [] \<and> vid = ingest_vid st
      \<and> snd (ingest_consciousness st req) =
          st\<lparr>objects := (objects st)(object_key (ingest_vid st) f \<mapsto> upload_content up),
             calls := Suc (calls st), draws := Suc (draws st), ticks := Suc (Suc (ticks st)),
             vault_log := append_line (vault_log st)
               \<lparr>timestamp = clock st (ticks st), operation = ''ingest'', filename = f,
                sha256_hash = calculate_sha256 (upload_content up), vault_id = ingest_vid st,
                status = ''success'', error = None\<rparr>\<rparr>"
  proof (cases rule: ingest_cases [where req = req and st = st])
    case too_large
    then show ?thesis using ok by (simp add: ingest_too_large)
  next
    case refused
    then show ?thesis using ok ingest_refused(2) [of req st] by simp
  next
    case (stored u)
    then show ?thesis
      using ok assms(1) ingest_stored [where req = req and up = u and st = st] by simp
  next
    case (rejected u)
    then show ?thesis
      using ok ingest_rejected [where req = req and up = u and st = st] by simp
  next
    case (raised u m)
    then show ?thesis
      using ok ingest_raised [where req = req and up = u and st = st] by simp
  qed
  then have f: "f = secure_filename (upload_filename up)" "f \<noteq> []" and vid: "vid = ingest_vid st"
    by blast+
  show "f = secure_filename (upload_filename up)" by (rule f)
  have "\<not> header_newline f"
    unfolding f(1) by (rule secure_filename_header)
  then show "fst (retrieve_consciousness (snd (ingest_consciousness st req)) vid
                     \<lparr>arg_filename = Some f, arg_metadata_only = None\<rparr>)
                = (Attachment (upload_content up) f, 200)"
    using stored f(2) assms(2)
    by (subst retrieve_found [where c = "upload_content up"])
       (simp_all add: vid ingest_vid_def UUID_parses_uuid_str)
next
  assume a: "content_length req \<le> MAX_CONTENT_LENGTH \<and> secure_filename (upload_filename up) \<noteq> []
            \<and> faults st (calls st) = None"
  then have "upload_filename up \<noteq> []"
    using secure_filename_empty by auto
  then show "\<exists>vid h n t. fst (ingest_consciousness st req)
                           = (IngestBody vid (secure_filename (upload_filename up)) h n t, 200)"
    using a assms(1) ingest_stored [where req = req and up = up and st = st] by simp
qed

text \<open>The end-to-end scenario: ten bytes ingested as \<open>note.txt\<close> into a fresh deployment.\<close>

theorem ingest_then_retrieve_witness:
  "fst (ingest_consciousness world0 note_request)
     = (IngestBody vid1 ''note.txt'' (calculate_sha256 (ascii ''hello12345'')) 10 1, 200)
   \<and> fst (retrieve_consciousness world1 vid1 ask_note) = (Attachment (ascii ''hello12345'') ''note.txt'', 200)"
proof -
  have ing: "fst (ingest_consciousness world0 note_request)
     = (IngestBody vid1 ''note.txt'' (calculate_sha256 (ascii ''hello12345'')) 10 1, 200)"
    by (simp add: ingest_stored [where up = note_txt and f = "''note.txt''"] note_request_def
          content_length_def MAX_CONTENT_LENGTH_def note_txt_def secure_filename_note
          world0_def ingest_vid_def vid1_def length_ascii)
  have carried: "file_part note_request = Some note_txt"
    by (simp add: note_request_def)
  have answers: "faults world0 (Suc (calls world0)) = None"
    by (simp add: world0_def)
  note ingest_then_retrieve [OF carried answers, THEN conjunct1, rule_format, OF ing, THEN conjunct2]
  then have "fst (retrieve_consciousness world1 vid1 ask_note)
               = (Attachment (ascii ''hello12345'') ''note.txt'', 200)"
    by (simp add: world1_def ask_note_def note_txt_def)
  with ing show ?thesis by (rule conjI)
qed


section \<open>A put that fails\<close>





section \<open>The verification handler\<close>

text \<open>
  Claim C1. In a reachable state, for a valid vault identifier and a file name such that
  the store returns the bytes under their key and \<open>r\<close> is the first ingest record of the
  audit log that matches both, the verification handler answers 200 with the digest
  recorded in \<open>r\<close>, the digest of the bytes just downloaded, and \<open>integrity_verified\<close> equal
  to the equality of the two. Two different digests give the same 200 response with
  \<open>integrity_verified\<close> false.
\<close>

theorem verify_reports_both_digests:
  assumes "reachable st" and "UUID_parses vid" and "arg_filename args = Some fname"
    and "faults st (calls st) = None"
    and "objects st (object_key vid fname) = Some content"
    and "find (\<lambda>e. vault_id e = vid \<and> filename e = fname \<and> operation e = ''ingest'')
           (file_lines (vault_log st)) = Some r"
  shows "fst (verify_consciousness st vid args) =
     (VerifyBody vid fname (sha256_hash r) (calculate_sha256 content)
        (sha256_hash r = calculate_sha256 content) (length content) (clock st (ticks st)), 200)"
proof -
  have "r \<in> set (file_lines (vault_log st))" and m: "filename r = fname" "operation r = ''ingest''"
    using assms(6) by (auto simp: find_Some_iff)
  moreover have "audit_log_ok st"
    using assms(1) by (rule reachable_audit_log_ok)
  ultimately have "ingest_record_ok r"
    by (simp add: audit_log_ok_def list_all_iff)
  then have "sha256_hash r \<noteq> []" "fname \<noteq> []"
    using m by (auto simp: ingest_record_ok_def)
  then show ?thesis
    using verify_found [OF assms(2,3) _ assms(4,5,6)] by (simp add: eq_commute)
qed

theorem verify_reports_both_digests_witness:
  "fst (verify_consciousness world1 vid1 ask_note) =
     (VerifyBody vid1 ''note.txt'' (calculate_sha256 (ascii ''hello12345''))
        (calculate_sha256 (ascii ''hello12345'')) True 10 2, 200)"
proof -
  have "reachable world0"
    by (rule reachable.fresh) (simp add: world0_def file_lines_simps)
  then have "reachable world1"
    unfolding world1_def by (rule reachable.ingest)
  then show ?thesis
    using verify_reports_both_digests [of world1 vid1 ask_note "''note.txt''"
            "ascii ''hello12345''"
            "\<lparr>timestamp = 0, operation = ''ingest'', filename = ''note.txt'',
              sha256_hash = calculate_sha256 (ascii ''hello12345''), vault_id = vid1,
              status = ''success'', error = None\<rparr>"]
    by (simp add: UUID_parses_uuid_str [of "uuid4 (entropy world0 0)", folded vid1_def]
          ask_note_def world1_eq world0_def file_lines_simps length_ascii)
qed


section \<open>Metadata-only retrieval\<close>

lemma py_lower_TRUE: "py_lower ''TRUE'' = ''true''"
  by code_simp

lemma scan_metadata_find:
  "scan_metadata vid lines =
     (case find (\<lambda>e. vault_id e = vid \<and> operation e = ''ingest'') lines of
        None \<Rightarrow> (ErrorBody ''Vault ID not found'', 404)
      | Some e \<Rightarrow>
          (MetadataBody vid (filename e) (sha256_hash e) (timestamp e) (status e), 200))"
  by (induction lines) simp_all

text \<open>
  Claim C3, as amended. For a valid vault identifier, a metadata-only retrieval answers
  with the file name, digest, time stamp and status of the first record of the audit log
  whose vault identifier matches and whose operation is \<open>ingest\<close>, whatever the status of
  that record; it answers 404 when the log has no such record or does not exist. The
  state is unchanged.
\<close>

theorem metadata_first_ingest_record:
  assumes "UUID_parses vid" and "arg_metadata_only args = Some v" and "py_lower v = ''true''"
  shows "retrieve_consciousness st vid args =
     ((case vault_log st of
         None \<Rightarrow> (ErrorBody ''Vault log not found'', 404)
       | Some lines \<Rightarrow>
           (case find (\<lambda>e. vault_id e = vid \<and> operation e = ''ingest'') lines of
              None \<Rightarrow> (ErrorBody ''Vault ID not found'', 404)
            | Some e \<Rightarrow>
                (MetadataBody vid (filename e) (sha256_hash e) (timestamp e) (status e), 200))),
      st)"
  using assms
  by (simp add: retrieve_consciousness_def scan_metadata_find split: option.splits)

lemma world_rejected_eq:
  "world_rejected = rejecting\<lparr>calls := 1, draws := 1, ticks := 1,
       vault_log := Some [\<lparr>timestamp = 0, operation = ''ingest'', filename = ''note.txt'',
         sha256_hash = calculate_sha256 (ascii ''hello12345''), vault_id = vid1,
         status = ''failed'', error = Some ''Upload to Spaces failed''\<rparr>]\<rparr>"
  by (simp add: world_rejected_def ingest_rejected [where up = note_txt and f = "''note.txt''"]
        note_request_def content_length_def MAX_CONTENT_LENGTH_def note_txt_def length_ascii
        secure_filename_note rejecting_def world0_def ingest_vid_def vid1_def append_line_def)

lemma UUID_parses_vid1: "UUID_parses vid1"
  unfolding vid1_def by (rule UUID_parses_uuid_str)

theorem metadata_first_ingest_record_witness:
  "retrieve_consciousness world1 vid1 ask_metadata =
     ((MetadataBody vid1 ''note.txt'' (calculate_sha256 (ascii ''hello12345'')) 0 ''success'', 200),
      world1)"
  using metadata_first_ingest_record [of vid1 ask_metadata "''TRUE''" world1]
  by (simp add: UUID_parses_vid1 ask_metadata_def py_lower_TRUE world1_eq world0_def)

text \<open>
  Claim C3 as stated fails: after an ingest that the store refused, the log holds no
  \<open>ingest\<close> record with status \<open>success\<close> for the identifier, and the metadata query is
  answered with the \<open>failed\<close> record instead of a not-found error.
\<close>

theorem metadata_of_failed_ingest_counterexample:
  "filter (\<lambda>e. vault_id e = vid1 \<and> operation e = ''ingest'' \<and> status e = ''success'')
     (file_lines (vault_log world_rejected)) = []
   \<and> fst (retrieve_consciousness world_rejected vid1 ask_metadata) =
       (MetadataBody vid1 ''note.txt'' (calculate_sha256 (ascii ''hello12345'')) 0 ''failed'', 200)"
  by (simp add: retrieve_consciousness_def UUID_parses_vid1 ask_metadata_def py_lower_TRUE
        world_rejected_eq rejecting_def world0_def file_lines_simps)


section \<open>A run of the periodic auditor\<close>


lemma verify_file_integrity_frame:
  "objects (snd (verify_file_integrity st vid fname oh)) = objects st"
  "faults (snd (verify_file_integrity st vid fname oh)) = faults st"
  "calls (snd (verify_file_integrity st vid fname oh)) = Suc (calls st)"
  by (simp_all add: verify_file_integrity_def download_from_spaces_def get_object_def Let_def
        log_integrity_check_def utcnow_def split: option.splits exn.splits)


lemma check_files_frame:
  "objects (snd (snd (check_files infos v f st))) = objects st
   \<and> faults (snd (snd (check_files infos v f st))) = faults st
   \<and> calls (snd (snd (check_files infos v f st))) = calls st + length infos"
proof (induction infos arbitrary: v f st)
  case Nil
  show ?case by simp
next
  case (Cons info rest)
  let ?r = "verify_file_integrity st (fi_vault_id info) (fi_filename info) (fi_original_hash info)"
  show ?case
    using Cons.IH [of "v + 1" f "snd ?r"] Cons.IH [of v "f + 1" "snd ?r"]
      verify_file_integrity_frame
        [of st "fi_vault_id info" "fi_filename info" "fi_original_hash info"]
    by (cases ?r) (simp split: bool.splits)
qed







lemma ingest_vid_world0:
  "ingest_vid (world0\<lparr>draws := 1\<rparr>) = vid2" "ingest_vid (world0\<lparr>draws := 2\<rparr>) = vid3"
  by (simp_all add: ingest_vid_def vid2_def vid3_def world0_def)




section \<open>Tamper detection\<close>

text \<open>The digests of the two contents of the scenario, as \<open>hashlib\<close> prints them.\<close>

lemma sha256_hello:
  "calculate_sha256 (ascii ''hello12345'') =
     ''89a7e6eabbc4c9477277ec9b246c6417dc352e69418bf3ef4d75e9c19bbbedd6''"
  by code_simp

lemma sha256_HELLO:
  "calculate_sha256 (ascii ''HELLO12345'') =
     ''27ee619c58849ea484eaf50f6e91fb6944f973312e62060f0735d2fdbbc7f30b''"
  by code_simp

text \<open>
  Claim C8, as amended. In a reachable state, let \<open>r\<close> be the record of an ingested entry
  (the first ingest record of the audit log for the vault identifier and the file name),
  written when the bytes \<open>c\<close> were ingested, and let the blob under the entry's key now be
  the bytes \<open>c'\<close>. If the digest of \<open>c'\<close> is not the digest of \<open>c\<close>, the verification
  answers 200 with \<open>integrity_verified\<close> false, the recorded digest as \<open>original_hash\<close> and
  the different digest of \<open>c'\<close> as \<open>current_hash\<close>.
\<close>

theorem tampering_detected:
  assumes "reachable st" and "UUID_parses vid" and "arg_filename args = Some fname"
    and "faults st (calls st) = None"
    and "find (\<lambda>e. vault_id e = vid \<and> filename e = fname \<and> operation e = ''ingest'')
           (file_lines (vault_log st)) = Some r"
    and "sha256_hash r = calculate_sha256 c"
    and "objects st (object_key vid fname) = Some c'"
    and "calculate_sha256 c' \<noteq> calculate_sha256 c"
  shows "fst (verify_consciousness st vid args) =
     (VerifyBody vid fname (calculate_sha256 c) (calculate_sha256 c') False (length c')
        (clock st (ticks st)), 200)"
proof -
  have "r \<in> set (file_lines (vault_log st))" and m: "filename r = fname" "operation r = ''ingest''"
    using assms(5) by (auto simp: find_Some_iff)
  moreover have "audit_log_ok st"
    using assms(1) by (rule reachable_audit_log_ok)
  ultimately have "ingest_record_ok r"
    by (simp add: audit_log_ok_def list_all_iff)
  then have "fname \<noteq> []"
    using m by (auto simp: ingest_record_ok_def)
  moreover have "sha256_hash r \<noteq> []"
    unfolding assms(6) by (rule calculate_sha256_nonempty)
  ultimately show ?thesis
    using verify_found [OF assms(2,3) _ assms(4,7,5)] assms(6,8) by simp
qed

lemma tampered_verification_eq:
  assumes "length c \<le> 1000"
  shows "tampered_verification c c' =
     (VerifyBody vid1 ''note.txt'' (calculate_sha256 c) (calculate_sha256 c')
        (calculate_sha256 c' = calculate_sha256 c) (length c') 2, 200)"
proof -
  let ?up = "\<lparr>upload_filename = ''note.txt'', upload_content = c\<rparr>"
  let ?req = "\<lparr>framing = 190, file_part = Some ?up\<rparr>"
  have ing: "snd (ingest_consciousness world0 ?req) =
      world0\<lparr>objects := [object_key vid1 ''note.txt'' \<mapsto> c],
        calls := 1, draws := 1, ticks := 2,
        vault_log := Some [\<lparr>timestamp = 0, operation = ''ingest'', filename = ''note.txt'',
          sha256_hash = calculate_sha256 c, vault_id = vid1,
          status = ''success'', error = None\<rparr>]\<rparr>"
    using assms
    by (simp add: ingest_stored [where up = ?up and f = "''note.txt''"] content_length_def
          MAX_CONTENT_LENGTH_def secure_filename_note world0_def ingest_vid_def vid1_def
          append_line_def)
  show ?thesis
    unfolding tampered_verification_def Let_def ing
    by (simp add: verify_consciousness_def ask_note_def truthy_def download_from_spaces_def
          get_object_def UUID_parses_uuid_str [of "uuid4 (entropy world0 0)", folded vid1_def]
          calculate_sha256_nonempty utcnow_def Let_def world0_def)
qed

text \<open>
  Claim C8 as stated fails: the handler compares digests, not bytes, and two different
  strings of 33 bytes have the same digest. When one is ingested and the blob is replaced
  by the other, the verification reports \<open>integrity_verified\<close> true.
\<close>

theorem undetected_tampering_counterexample:
  "\<exists>c c'. c' \<noteq> c \<and> length c = 33 \<and> length c' = 33
     \<and> tampered_verification c c' =
         (VerifyBody vid1 ''note.txt'' (calculate_sha256 c) (calculate_sha256 c) True 33 2, 200)"
proof -
  obtain c c' where "c \<noteq> c'" "length c = 33" "length c' = 33"
    "calculate_sha256 c = calculate_sha256 c'"
    using short_collision by blast
  then show ?thesis
    by (intro exI [of _ c] exI [of _ c']) (simp add: tampered_verification_eq)
qed

text \<open>The scenario with \<open>hello12345\<close> replaced by \<open>HELLO12345\<close>.\<close>

theorem tampering_detected_witness:
  "tampered_verification (ascii ''hello12345'') (ascii ''HELLO12345'') =
     (VerifyBody vid1 ''note.txt''
        ''89a7e6eabbc4c9477277ec9b246c6417dc352e69418bf3ef4d75e9c19bbbedd6''
        ''27ee619c58849ea484eaf50f6e91fb6944f973312e62060f0735d2fdbbc7f30b'' False 10 2, 200)"
proof -
  let ?st = "world1\<lparr>objects := (objects world1)(object_key vid1 ''note.txt'' \<mapsto> ascii ''HELLO12345'')\<rparr>"
  let ?r = "\<lparr>timestamp = 0, operation = ''ingest'', filename = ''note.txt'',
              sha256_hash = calculate_sha256 (ascii ''hello12345''), vault_id = vid1,
              status = ''success'', error = None\<rparr>"
  have "reachable world0"
    by (rule reachable.fresh) (simp add: world0_def file_lines_simps)
  then have "reachable world1"
    unfolding world1_def by (rule reachable.ingest)
  then have 1: "reachable ?st"
    by (rule reachable.elsewhere) simp
  have 2: "UUID_parses vid1"
    unfolding vid1_def by (rule UUID_parses_uuid_str)
  have 3: "arg_filename ask_note = Some ''note.txt''"
    by (simp add: ask_note_def)
  have 4: "faults ?st (calls ?st) = None"
    by (simp add: world1_eq world0_def)
  have 5: "find (\<lambda>e. vault_id e = vid1 \<and> filename e = ''note.txt'' \<and> operation e = ''ingest'')
             (file_lines (vault_log ?st)) = Some ?r"
    by (simp add: world1_eq file_lines_simps)
  have 6: "sha256_hash ?r = calculate_sha256 (ascii ''hello12345'')"
    by simp
  have 7: "objects ?st (object_key vid1 ''note.txt'') = Some (ascii ''HELLO12345'')"
    by simp
  have 8: "calculate_sha256 (ascii ''HELLO12345'') \<noteq> calculate_sha256 (ascii ''hello12345'')"
    unfolding sha256_hello sha256_HELLO by simp
  have "tampered_verification (ascii ''hello12345'') (ascii ''HELLO12345'') =
          fst (verify_consciousness ?st vid1 ask_note)"
    by (simp add: tampered_verification_def world1_def note_request_def note_txt_def Let_def)
  also note tampering_detected [OF 1 2 3 4 5 6 7 8]
  finally show ?thesis
    by (simp add: sha256_hello sha256_HELLO length_ascii world1_eq world0_def)
qed

end
